theory Spec2Isabelle
  imports Complex_Main "HOL-Library.Log_Nat" "HOL-Library.Sublist"
begin

section \<open>Python values used by \<open>backend/app.py\<close>\<close>

subsection \<open>Numbers\<close>

text \<open>
  The scores are computed with Python's \<open>int\<close> and \<open>float\<close>. A number is modelled by
  its exact value, a rational; every operation whose result is a \<open>float\<close> rounds the
  exact result to binary64 (53 significant bits, round to nearest, ties to even).
  The exponent is not bounded in the model: the magnitudes that occur (quotients of
  lengths, percentages, sums below 400) are far from the overflow and subnormal ranges
  of binary64. An \<open>int\<close> below \<open>2 ^ 53\<close> and the \<open>float\<close> of the same value behave alike
  in every operation used here, so the two are not told apart.
\<close>

definition round_half_even :: "rat \<Rightarrow> int" where
  "round_half_even x =
     (let f = \<lfloor>x\<rfloor>; d = x - of_int f
      in if d < 1 / 2 then f
         else if 1 / 2 < d then f + 1
         else if even f then f else f + 1)"

text \<open>For \<open>0 < x\<close>, \<open>binade x\<close> is the exponent \<open>e\<close> with \<open>2 ^ e \<le> x < 2 ^ (e + 1)\<close>.\<close>

definition binade :: "rat \<Rightarrow> int" where
  "binade x =
     (let (n, d) = quotient_of x;
          e = bitlen n - bitlen d
      in if x < 2 powi e then e - 1 else e)"

definition float_round :: "rat \<Rightarrow> rat" where
  "float_round x =
     (if x = 0 then 0
      else let a = \<bar>x\<bar>;
               u = 2 powi (binade a - 52);
               r = of_int (round_half_even (a / u)) * u
           in if x < 0 then - r else r)"

datatype exn = ZeroDivisionError | LibraryError string

text \<open>\<open>x + y\<close>, \<open>x - y\<close>, \<open>x * y\<close> with a \<open>float\<close> operand.\<close>

definition float_add :: "rat \<Rightarrow> rat \<Rightarrow> rat" where
  "float_add x y = float_round (x + y)"

definition float_sub :: "rat \<Rightarrow> rat \<Rightarrow> rat" where
  "float_sub x y = float_round (x - y)"

definition float_mul :: "rat \<Rightarrow> rat \<Rightarrow> rat" where
  "float_mul x y = float_round (x * y)"

text \<open>
  \<open>x / y\<close> (true division): raises on a zero divisor, and is correctly rounded, also
  when both operands are \<open>int\<close>.
\<close>

definition py_truediv :: "rat \<Rightarrow> rat \<Rightarrow> exn + rat" where
  "py_truediv x y = (if y = 0 then Inl ZeroDivisionError else Inr (float_round (x / y)))"

text \<open>\<open>x / c\<close> for a literal \<open>c\<close> other than zero (\<open>1500\<close> and \<open>4\<close> in the source).\<close>

definition float_div :: "rat \<Rightarrow> rat \<Rightarrow> rat" where
  "float_div x c = float_round (x / c)"

text \<open>\<open>int(x)\<close> truncates towards zero.\<close>

definition py_int :: "rat \<Rightarrow> int" where
  "py_int x = (if 0 \<le> x then \<lfloor>x\<rfloor> else \<lceil>x\<rceil>)"

subsection \<open>Strings\<close>

text \<open>
  A \<open>str\<close> is modelled as a \<open>string\<close>: a list of code points below 256, so \<open>length\<close>
  is \<open>len\<close>. On these code points \<open>str.lower()\<close> works character by character: it
  moves \<open>A\<close>..\<open>Z\<close> and the upper-case letters of Latin-1 (\<open>0xC0\<close>..\<open>0xDE\<close> without the
  multiplication sign \<open>0xD7\<close>) up by 32 and leaves every other code point alone.
\<close>

definition lower_char :: "char \<Rightarrow> char" where
  "lower_char c =
     (let n = (of_char c :: nat)
      in if (65 \<le> n \<and> n \<le> 90) \<or> (192 \<le> n \<and> n \<le> 222 \<and> n \<noteq> 215)
         then char_of (n + 32) else c)"

definition str_lower :: "string \<Rightarrow> string" where
  "str_lower s = map lower_char s"

text \<open>\<open>text or ""\<close> for a text that may be \<open>None\<close>.\<close>

definition or_empty :: "string option \<Rightarrow> string" where
  "or_empty t = (case t of None \<Rightarrow> [] | Some s \<Rightarrow> s)"

text \<open>\<open>" ".join(parts)\<close>\<close>

fun join_space :: "string list \<Rightarrow> string" where
  "join_space [] = []"
| "join_space [p] = p"
| "join_space (p # q # ps) = p @ '' '' @ join_space (q # ps)"

section \<open>The libraries\<close>

text \<open>
  spaCy, pdfplumber, python-docx, werkzeug, \<open>os.path\<close> and sqlite3 are not part of the
  repository; the program is modelled over an environment that holds them. A spaCy
  token is modelled by the two attributes the program reads (\<open>lemma_of\<close> is spaCy's
  \<open>token.lemma_\<close>).
\<close>

record token =
  lemma_of :: string
  is_alpha :: bool

type_synonym nlp = "string \<Rightarrow> exn + token list"

section \<open>\<open>analyze_resume\<close>\<close>

record ScoreResult =
  overall :: int
  keyword :: int
  skill :: int
  readability :: int
  format :: int

text \<open>
  \<open>doc = nlp((text or "").lower())\<close> and
  \<open>set([token.lemma_ for token in doc if token.is_alpha])\<close>, as the program does for the
  resume and for the job description.
\<close>

definition token_set :: "nlp \<Rightarrow> string option \<Rightarrow> exn + string set" where
  "token_set nlp text =
     (case nlp (str_lower (or_empty text)) of
        Inl e \<Rightarrow> Inl e
      | Inr doc \<Rightarrow> Inr (set (map lemma_of (filter is_alpha doc))))"

text \<open>
  \<open>keyword_match = (len(resume_tokens & jd_tokens) / len(jd_tokens) * 100) if jd_tokens else 0\<close>
\<close>

definition keyword_match :: "string set \<Rightarrow> string set \<Rightarrow> exn + rat" where
  "keyword_match resume_tokens jd_tokens =
     (if jd_tokens \<noteq> {}
      then (case py_truediv (of_nat (card (resume_tokens \<inter> jd_tokens))) (of_nat (card jd_tokens)) of
              Inl e \<Rightarrow> Inl e
            | Inr q \<Rightarrow> Inr (float_mul q 100))
      else Inr 0)"

text \<open>\<open>skill_match = min(100, keyword_match + 10)\<close>\<close>

definition skill_match :: "rat \<Rightarrow> rat" where
  "skill_match km = min 100 (float_add km 10)"

text \<open>\<open>readability = max(30, 100 - len(resume_text or "") / 1500)\<close>\<close>

definition readability_score :: "string option \<Rightarrow> rat" where
  "readability_score resume_text =
     max 30 (float_sub 100 (float_div (of_nat (length (or_empty resume_text))) 1500))"

text \<open>\<open>format_score = 90 if "experience" in (resume_text or "").lower() else 70\<close>\<close>

definition format_score :: "string option \<Rightarrow> rat" where
  "format_score resume_text =
     (if sublist ''experience'' (str_lower (or_empty resume_text)) then 90 else 70)"

text \<open>\<open>overall = int((keyword_match + skill_match + readability + format_score) / 4)\<close>\<close>

definition overall_score :: "rat \<Rightarrow> rat \<Rightarrow> rat \<Rightarrow> rat \<Rightarrow> int" where
  "overall_score km sm rd fs =
     py_int (float_div (float_add (float_add (float_add km sm) rd) fs) 4)"

definition analyze_resume :: "nlp \<Rightarrow> string option \<Rightarrow> string option \<Rightarrow> exn + ScoreResult" where
  "analyze_resume nlp resume_text jd_text =
     (case token_set nlp resume_text of
        Inl e \<Rightarrow> Inl e
      | Inr resume_tokens \<Rightarrow>
     (case token_set nlp jd_text of
        Inl e \<Rightarrow> Inl e
      | Inr jd_tokens \<Rightarrow>
     (case keyword_match resume_tokens jd_tokens of
        Inl e \<Rightarrow> Inl e
      | Inr km \<Rightarrow>
          (let sm = skill_match km;
               rd = readability_score resume_text;
               fs = format_score resume_text
           in Inr \<lparr>overall = overall_score km sm rd fs,
                   keyword = py_int km,
                   skill = py_int sm,
                   readability = py_int rd,
                   format = py_int fs\<rparr>))))"

section \<open>\<open>extract_text\<close> and the \<open>/analyze\<close> route\<close>

text \<open>
  The stored files are a map from paths to contents. pdfplumber and python-docx read
  the file at a path and may raise; they are modelled by what they make of the
  file's contents: the result of \<open>page.extract_text()\<close> for every page (\<open>None\<close> for a
  page without text), and \<open>p.text\<close> for every paragraph.
\<close>

type_synonym files = "string \<rightharpoonup> string"

text \<open>
  The row of the \<open>INSERT INTO analyses\<close>: \<open>userId\<close>, \<open>jobFile\<close>, \<open>resumeFile\<close>,
  \<open>atsScore\<close>, \<open>keywordMatch\<close>, \<open>skillMatch\<close>, \<open>readability\<close>, \<open>formatScore\<close>.
\<close>

type_synonym analysis = "string option \<times> string \<times> string \<times> int \<times> int \<times> int \<times> int \<times> int"

record env =
  spacy_nlp :: nlp
  pdf_pages :: "string \<Rightarrow> exn + string option list"
  docx_paragraphs :: "string \<Rightarrow> exn + string list"
  secure_filename :: "string \<Rightarrow> string"
  splitext :: "string \<Rightarrow> string \<times> string"
  path_join :: "string \<Rightarrow> string \<Rightarrow> string"
  UPLOAD_ROOT :: string
  db_insert :: "analysis list \<Rightarrow> analysis \<Rightarrow> exn + analysis list"

definition JD_FOLDER :: "env \<Rightarrow> string" where
  "JD_FOLDER env = path_join env (UPLOAD_ROOT env) ''jd''"

definition RESUME_FOLDER :: "env \<Rightarrow> string" where
  "RESUME_FOLDER env = path_join env (UPLOAD_ROOT env) ''resume''"

definition ALLOWED_EXT :: "string set" where
  "ALLOWED_EXT = {''.pdf'', ''.docx''}"

definition allowed_file :: "env \<Rightarrow> string \<Rightarrow> bool" where
  "allowed_file env name = (str_lower (snd (splitext env name)) \<in> ALLOWED_EXT)"

definition read_file :: "files \<Rightarrow> string \<Rightarrow> exn + string" where
  "read_file fs file_path =
     (case fs file_path of
        None \<Rightarrow> Inl (LibraryError ''FileNotFoundError'')
      | Some bytes \<Rightarrow> Inr bytes)"

definition extract_text :: "env \<Rightarrow> files \<Rightarrow> string \<Rightarrow> exn + string" where
  "extract_text env fs file_path =
     (if suffix ''.pdf'' file_path then
        (case read_file fs file_path of
           Inl e \<Rightarrow> Inl e
         | Inr bytes \<Rightarrow>
             (case pdf_pages env bytes of
                Inl e \<Rightarrow> Inl e
              | Inr pages \<Rightarrow> Inr (join_space (map or_empty pages))))
      else if suffix ''.docx'' file_path then
        (case read_file fs file_path of
           Inl e \<Rightarrow> Inl e
         | Inr bytes \<Rightarrow>
             (case docx_paragraphs env bytes of
                Inl e \<Rightarrow> Inl e
              | Inr paragraphs \<Rightarrow> Inr (join_space paragraphs)))
      else Inr [])"

record upload =
  filename :: string
  content :: string

record request =
  form_userId :: "string option"
  files_jobFile :: "upload option"
  files_resumeFile :: "upload option"

datatype response = Json_result ScoreResult | Json_error string nat

record server =
  files :: files
  analyses :: "analysis list"

text \<open>The body of the first \<open>try\<close> of \<open>analyze\<close>: both extractions, then the analysis.\<close>

definition extract_and_analyze :: "env \<Rightarrow> files \<Rightarrow> string \<Rightarrow> string \<Rightarrow> exn + ScoreResult" where
  "extract_and_analyze env fs jd_path resume_path =
     (case extract_text env fs jd_path of
        Inl e \<Rightarrow> Inl e
      | Inr jd_text \<Rightarrow>
     (case extract_text env fs resume_path of
        Inl e \<Rightarrow> Inl e
      | Inr resume_text \<Rightarrow> analyze_resume (spacy_nlp env) (Some resume_text) (Some jd_text)))"

text \<open>
  The handler of \<open>POST /analyze\<close>. An upload is falsy when it is missing or has an
  empty file name. The handler answers and leaves the server in a new state.
\<close>

definition analyze :: "env \<Rightarrow> server \<Rightarrow> request \<Rightarrow> response \<times> server" where
  "analyze env s req =
     (case (files_jobFile req, files_resumeFile req) of
        (Some jd_file, Some resume_file) \<Rightarrow>
          if filename jd_file = [] \<or> filename resume_file = []
          then (Json_error ''Both jobFile and resumeFile are required'' 400, s)
          else if \<not> allowed_file env (filename jd_file) \<or> \<not> allowed_file env (filename resume_file)
          then (Json_error ''Unsupported file type. Allowed: .pdf, .docx'' 400, s)
          else
            (let jd_filename = secure_filename env (filename jd_file);
                 resume_filename = secure_filename env (filename resume_file);
                 jd_path = path_join env (JD_FOLDER env) jd_filename;
                 resume_path = path_join env (RESUME_FOLDER env) resume_filename;
                 saved = s\<lparr>files := (files s)(jd_path \<mapsto> content jd_file,
                                                resume_path \<mapsto> content resume_file)\<rparr>
             in case extract_and_analyze env (files saved) jd_path resume_path of
                  Inl e \<Rightarrow> (Json_error ''Processing failed'' 500, saved)
                | Inr result \<Rightarrow>
                    (case db_insert env (analyses saved)
                            (form_userId req, jd_path, resume_path, overall result,
                             keyword result, skill result, readability result, format result) of
                       Inl e \<Rightarrow> (Json_error ''DB error'' 500, saved)
                     | Inr rows \<Rightarrow> (Json_result result, saved\<lparr>analyses := rows\<rparr>)))
      | _ \<Rightarrow> (Json_error ''Both jobFile and resumeFile are required'' 400, s))"

section \<open>A small environment\<close>

text \<open>
  An environment to run the program on concrete inputs: a tokenizer that splits at
  spaces, takes a word for its own lemma and calls it alphabetic when it consists of
  the letters \<open>a\<close>..\<open>z\<close>; a PDF reader that accepts the contents after a \<open>%PDF\<close> header
  as one page and raises without the header; a DOCX reader with one paragraph; file
  names left as they are; the extension from the last dot; paths joined by a slash;
  an insertion that appends the row.
\<close>

fun split_words :: "string \<Rightarrow> string \<Rightarrow> string list" where
  "split_words w [] = (if w = [] then [] else [w])"
| "split_words w (c # cs) =
     (if c = CHR '' '' then (if w = [] then split_words [] cs else w # split_words [] cs)
      else split_words (w @ [c]) cs)"

definition is_letter :: "char \<Rightarrow> bool" where
  "is_letter c = (97 \<le> (of_char c :: nat) \<and> (of_char c :: nat) \<le> 122)"

definition word_nlp :: nlp where
  "word_nlp text = Inr (map (\<lambda>w. \<lparr>lemma_of = w, is_alpha = list_all is_letter w\<rparr>) (split_words [] text))"

definition header_pdf_pages :: "string \<Rightarrow> exn + string option list" where
  "header_pdf_pages bytes =
     (if prefix ''%PDF'' bytes then Inr [Some (drop 4 bytes)]
      else Inl (LibraryError ''No /Root object! - Is this really a PDF?''))"

definition last_dot_splitext :: "string \<Rightarrow> string \<times> string" where
  "last_dot_splitext name =
     (if CHR ''.'' \<in> set name
      then (butlast (rev (dropWhile (\<lambda>c. c \<noteq> CHR ''.'') (rev name))),
            CHR ''.'' # rev (takeWhile (\<lambda>c. c \<noteq> CHR ''.'') (rev name)))
      else (name, []))"

definition small_env :: env where
  "small_env =
     \<lparr>spacy_nlp = word_nlp,
      pdf_pages = header_pdf_pages,
      docx_paragraphs = (\<lambda>bytes. Inr [bytes]),
      secure_filename = (\<lambda>name. name),
      splitext = last_dot_splitext,
      path_join = (\<lambda>a b. a @ ''/'' @ b),
      UPLOAD_ROOT = ''uploads'',
      db_insert = (\<lambda>rows row. Inr (rows @ [row]))\<rparr>"

section \<open>Rounding to binary64\<close>

lemma round_half_even_of_int: "round_half_even (of_int n) = n"
  by (simp add: round_half_even_def)

lemma round_half_even_lower: "\<lfloor>x\<rfloor> \<le> round_half_even x"
  by (simp add: round_half_even_def Let_def)

lemma round_half_even_upper: "round_half_even x \<le> \<lfloor>x\<rfloor> + 1"
  by (simp add: round_half_even_def Let_def)

lemma round_half_even_mono:
  assumes "x \<le> y"
  shows "round_half_even x \<le> round_half_even y"
proof (cases "\<lfloor>x\<rfloor> = \<lfloor>y\<rfloor>")
  case True
  with assms show ?thesis
    by (auto simp add: round_half_even_def Let_def)
next
  case False
  with assms have "\<lfloor>x\<rfloor> < \<lfloor>y\<rfloor>"
    using floor_mono [of x y] by linarith
  then have "round_half_even x \<le> \<lfloor>y\<rfloor>"
    using round_half_even_upper [of x] by linarith
  then show ?thesis
    using round_half_even_lower [of y] by linarith
qed

lemma round_half_even_ge_int: "of_int n \<le> x \<Longrightarrow> n \<le> round_half_even x"
  using round_half_even_mono [of "of_int n" x] by (simp add: round_half_even_of_int)

lemma round_half_even_le_int: "x \<le> of_int n \<Longrightarrow> round_half_even x \<le> n"
  using round_half_even_mono [of x "of_int n"] by (simp add: round_half_even_of_int)

lemma binade_bounds:
  assumes "0 < x"
  shows "2 powi binade x \<le> x" and "x < 2 powi (binade x + 1)"
proof -
  obtain n d where q: "quotient_of x = (n, d)"
    by (cases "quotient_of x")
  have d: "0 < d"
    using q by (rule quotient_of_denom_pos)
  have x: "x = of_int n / of_int d"
    using q by (rule quotient_of_div)
  have n: "0 < n"
    using assms d unfolding x by (simp add: zero_less_divide_iff)
  define e where "e = bitlen n - bitlen d"
  have bn: "2 ^ nat (bitlen n - 1) \<le> n" "n < 2 ^ nat (bitlen n)"
    using bitlen_bounds [OF n] by simp_all
  have bd: "2 ^ nat (bitlen d - 1) \<le> d" "d < 2 ^ nat (bitlen d)"
    using bitlen_bounds [OF d] by simp_all
  have pn: "1 \<le> bitlen n" and pd: "1 \<le> bitlen d"
    using n d by (simp_all add: bitlen_alt_def)
  have rn: "(2::rat) powi (bitlen n - 1) \<le> of_int n" "of_int n < (2::rat) powi bitlen n"
  proof -
    have "(of_int (2 ^ nat (bitlen n - 1)) :: rat) \<le> of_int n"
      using bn(1) by (simp only: of_int_le_iff)
    then show "(2::rat) powi (bitlen n - 1) \<le> of_int n"
      using pn by (simp add: power_int_def)
    have "(of_int n :: rat) < of_int (2 ^ nat (bitlen n))"
      using bn(2) by (simp only: of_int_less_iff)
    then show "of_int n < (2::rat) powi bitlen n"
      using pn by (simp add: power_int_def)
  qed
  have rd: "(2::rat) powi (bitlen d - 1) \<le> of_int d" "of_int d < (2::rat) powi bitlen d"
  proof -
    have "(of_int (2 ^ nat (bitlen d - 1)) :: rat) \<le> of_int d"
      using bd(1) by (simp only: of_int_le_iff)
    then show "(2::rat) powi (bitlen d - 1) \<le> of_int d"
      using pd by (simp add: power_int_def)
    have "(of_int d :: rat) < of_int (2 ^ nat (bitlen d))"
      using bd(2) by (simp only: of_int_less_iff)
    then show "of_int d < (2::rat) powi bitlen d"
      using pd by (simp add: power_int_def)
  qed
  have dr: "(0::rat) < of_int d"
    using d by simp
  have lo: "2 powi (e - 1) \<le> x"
  proof -
    have "(2::rat) powi (e - 1) * of_int d \<le> 2 powi (e - 1) * 2 powi bitlen d"
      using rd(2) by (intro mult_left_mono) simp_all
    also have "\<dots> = 2 powi (bitlen n - 1)"
      by (simp add: e_def power_int_add [symmetric])
    also have "\<dots> \<le> of_int n"
      by (rule rn(1))
    finally show ?thesis
      unfolding x using dr by (simp add: pos_le_divide_eq)
  qed
  have hi: "x < 2 powi (e + 1)"
  proof -
    have "of_int n < (2::rat) powi bitlen n"
      by (rule rn(2))
    also have "\<dots> = 2 powi (e + 1) * 2 powi (bitlen d - 1)"
      by (simp add: e_def power_int_add [symmetric])
    also have "\<dots> \<le> 2 powi (e + 1) * of_int d"
      using rd(1) by (intro mult_left_mono) simp_all
    finally show ?thesis
      unfolding x using dr by (simp add: pos_divide_less_eq)
  qed
  have b: "binade x = (if x < 2 powi e then e - 1 else e)"
    by (simp add: binade_def q e_def Let_def)
  show "2 powi binade x \<le> x"
    using lo by (simp add: b)
  show "x < 2 powi (binade x + 1)"
    using hi by (simp add: b)
qed

lemma two_powi_less_cancel:
  assumes "(2::rat) powi a < 2 powi b"
  shows "a < b"
proof (rule ccontr)
  assume "\<not> a < b"
  then have "(2::rat) powi b \<le> 2 powi a"
    by (intro power_int_increasing) simp_all
  with assms show False by simp
qed

lemma binade_unique:
  assumes "0 < x" and "2 powi e \<le> x" and "x < 2 powi (e + 1)"
  shows "binade x = e"
proof -
  have "(2::rat) powi e < 2 powi (binade x + 1)"
    using assms(2) binade_bounds(2) [OF assms(1)] by (rule le_less_trans)
  then have "e < binade x + 1"
    by (rule two_powi_less_cancel)
  moreover have "(2::rat) powi binade x < 2 powi (e + 1)"
    using binade_bounds(1) [OF assms(1)] assms(3) by (rule le_less_trans)
  then have "binade x < e + 1"
    by (rule two_powi_less_cancel)
  ultimately show ?thesis by simp
qed

lemma float_round_pos:
  "0 < x \<Longrightarrow>
   float_round x = of_int (round_half_even (x / 2 powi (binade x - 52))) * 2 powi (binade x - 52)"
  by (simp add: float_round_def Let_def)

lemma float_round_minus: "float_round (- x) = - float_round x"
  by (simp add: float_round_def Let_def)

lemma float_round_zero: "float_round 0 = 0"
  by (simp add: float_round_def)

lemma two_powi_split: "(2::rat) powi b = 2 ^ 52 * 2 powi (b - 52)"
  using power_int_add [of "2::rat" 52 "b - 52"] by simp

lemma float_round_pos_bounds:
  assumes "0 < x"
  shows "2 powi binade x \<le> float_round x" and "float_round x \<le> 2 powi (binade x + 1)"
proof -
  define u :: rat where "u = 2 powi (binade x - 52)"
  have u: "0 < u"
    by (simp add: u_def)
  have lo: "2 powi binade x = 2 ^ 52 * u"
    unfolding u_def by (rule two_powi_split)
  have hi: "2 powi (binade x + 1) = 2 ^ 53 * u"
    using power_int_add [of "2::rat" 53 "binade x - 52"] by (simp add: u_def add.commute)
  have fr: "float_round x = of_int (round_half_even (x / u)) * u"
    using assms by (simp add: float_round_pos u_def)
  have "of_int (2 ^ 52) \<le> x / u"
    using binade_bounds(1) [OF assms] u by (simp add: lo pos_le_divide_eq)
  then have "2 ^ 52 \<le> round_half_even (x / u)"
    by (rule round_half_even_ge_int)
  then have "(of_int (2 ^ 52) :: rat) \<le> of_int (round_half_even (x / u))"
    by (simp only: of_int_le_iff)
  then have "2 ^ 52 * u \<le> of_int (round_half_even (x / u)) * u"
    using u by (intro mult_right_mono) simp_all
  then show "2 powi binade x \<le> float_round x"
    by (simp add: lo fr)
  have "x / u \<le> of_int (2 ^ 53)"
    using binade_bounds(2) [OF assms] u by (simp add: hi pos_divide_le_eq)
  then have "round_half_even (x / u) \<le> 2 ^ 53"
    by (rule round_half_even_le_int)
  then have "(of_int (round_half_even (x / u)) :: rat) \<le> of_int (2 ^ 53)"
    by (simp only: of_int_le_iff)
  then have "of_int (round_half_even (x / u)) * u \<le> 2 ^ 53 * u"
    using u by (intro mult_right_mono) simp_all
  then show "float_round x \<le> 2 powi (binade x + 1)"
    by (simp add: hi fr)
qed

lemma float_round_pos_gt: "0 < x \<Longrightarrow> 0 < float_round x"
proof -
  assume "0 < x"
  have "(0::rat) < 2 powi binade x"
    by simp
  also have "\<dots> \<le> float_round x"
    using \<open>0 < x\<close> by (rule float_round_pos_bounds(1))
  finally show ?thesis .
qed

lemma float_round_mono_pos:
  assumes "0 < x" and "x \<le> y"
  shows "float_round x \<le> float_round y"
proof -
  have y: "0 < y"
    using assms by simp
  have "(2::rat) powi binade x < 2 powi (binade y + 1)"
    using binade_bounds(1) [OF assms(1)] assms(2) binade_bounds(2) [OF y] by linarith
  then have le: "binade x \<le> binade y"
    using two_powi_less_cancel by fastforce
  show ?thesis
  proof (cases "binade x = binade y")
    case True
    define u :: rat where "u = 2 powi (binade y - 52)"
    have u: "0 < u"
      by (simp add: u_def)
    have "x / u \<le> y / u"
      using assms(2) u by (simp add: divide_right_mono)
    then have "round_half_even (x / u) \<le> round_half_even (y / u)"
      by (rule round_half_even_mono)
    then have "(of_int (round_half_even (x / u)) :: rat) \<le> of_int (round_half_even (y / u))"
      by (simp only: of_int_le_iff)
    then have "of_int (round_half_even (x / u)) * u \<le> of_int (round_half_even (y / u)) * u"
      using u by (intro mult_right_mono) simp_all
    then show ?thesis
      using assms(1) y True by (simp add: float_round_pos u_def)
  next
    case False
    with le have "binade x + 1 \<le> binade y"
      by simp
    then have "(2::rat) powi (binade x + 1) \<le> 2 powi binade y"
      by (intro power_int_increasing) simp_all
    then show ?thesis
      using float_round_pos_bounds(2) [OF assms(1)] float_round_pos_bounds(1) [OF y]
      by linarith
  qed
qed

lemma float_round_mono:
  assumes "x \<le> y"
  shows "float_round x \<le> float_round y"
proof -
  consider "0 < x" | "x = 0" | "x < 0" "0 \<le> y" | "x < 0" "y < 0"
    by linarith
  then show ?thesis
  proof cases
    case 1
    then show ?thesis
      using assms by (rule float_round_mono_pos)
  next
    case 2
    then show ?thesis
      using assms float_round_pos_gt [of y]
      by (cases "y = 0") (simp_all add: float_round_zero less_imp_le)
  next
    case 3
    have "0 < float_round (- x)"
      using 3(1) by (intro float_round_pos_gt) simp
    then have "float_round x < 0"
      using float_round_minus [of x] by simp
    moreover have "0 \<le> float_round y"
      using 3(2) float_round_pos_gt [of y]
      by (cases "y = 0") (simp_all add: float_round_zero less_imp_le)
    ultimately show ?thesis by simp
  next
    case 4
    have "float_round (- y) \<le> float_round (- x)"
      using 4 assms by (intro float_round_mono_pos) simp_all
    then show ?thesis
      by (simp add: float_round_minus)
  qed
qed

lemma float_round_dyadic_pos:
  assumes "0 < m" and "m < 2 ^ 53"
  shows "float_round (of_int m * 2 powi k) = of_int m * 2 powi k"
proof -
  define x :: rat where "x = of_int m * 2 powi k"
  have x: "0 < x"
    using assms(1) by (simp add: x_def)
  define j where "j = k - binade x + 52"
  have "(of_int m :: rat) < of_int (2 ^ 53)"
    using assms(2) by (simp only: of_int_less_iff)
  then have "x < 2 ^ 53 * 2 powi k"
    unfolding x_def by (intro mult_strict_right_mono) simp_all
  also have "\<dots> = 2 powi (53 + k)"
    using power_int_add [of "2::rat" 53 k] by simp
  finally have "(2::rat) powi binade x < 2 powi (53 + k)"
    using binade_bounds(1) [OF x] by simp
  then have "binade x < 53 + k"
    by (rule two_powi_less_cancel)
  then have j: "0 \<le> j"
    by (simp add: j_def)
  have "x / 2 powi (binade x - 52) = of_int m * (2 powi k / 2 powi (binade x - 52))"
    by (simp add: x_def)
  also have "2 powi k / 2 powi (binade x - 52) = (2::rat) powi j"
    using power_int_diff [of "2::rat" k "binade x - 52"] by (simp add: j_def algebra_simps)
  also have "(2::rat) powi j = of_int (2 ^ nat j)"
    using j by (simp add: power_int_def)
  finally have "x / 2 powi (binade x - 52) = of_int (m * 2 ^ nat j)"
    by simp
  then have "round_half_even (x / 2 powi (binade x - 52)) = m * 2 ^ nat j"
    by (simp only: round_half_even_of_int)
  then have "float_round x = of_int (m * 2 ^ nat j) * 2 powi (binade x - 52)"
    using x by (simp only: float_round_pos)
  also have "\<dots> = of_int m * ((2::rat) powi j * 2 powi (binade x - 52))"
    using j by (simp add: power_int_def)
  also have "(2::rat) powi j * 2 powi (binade x - 52) = 2 powi k"
    using power_int_add [of "2::rat" j "binade x - 52"] by (simp add: j_def)
  finally show ?thesis
    by (simp add: x_def)
qed

lemma float_round_dyadic:
  assumes "\<bar>m\<bar> < 2 ^ 53"
  shows "float_round (of_int m * 2 powi k) = of_int m * 2 powi k"
proof -
  consider "0 < m" | "m = 0" | "m < 0"
    by linarith
  then show ?thesis
  proof cases
    case 1
    then show ?thesis
      using assms by (intro float_round_dyadic_pos) simp_all
  next
    case 2
    then show ?thesis
      by (simp add: float_round_zero)
  next
    case 3
    then have "float_round (of_int (- m) * 2 powi k) = of_int (- m) * 2 powi k"
      using assms by (intro float_round_dyadic_pos) simp_all
    then show ?thesis
      using float_round_minus [of "of_int m * 2 powi k"] by simp
  qed
qed

lemma float_round_of_int: "\<bar>m\<bar> < 2 ^ 53 \<Longrightarrow> float_round (of_int m) = of_int m"
  using float_round_dyadic [of m 0] by simp

lemma float_round_quarter: "\<bar>m\<bar> < 2 ^ 53 \<Longrightarrow> float_round (of_int m / 4) = of_int m / 4"
  using float_round_dyadic [of m "- 2"] by (simp add: power_int_minus_divide)

lemma float_round_between:
  assumes "of_int lo \<le> x" and "x \<le> of_int hi" and "\<bar>lo\<bar> < 2 ^ 53" and "\<bar>hi\<bar> < 2 ^ 53"
  shows "of_int lo \<le> float_round x" and "float_round x \<le> of_int hi"
proof -
  have "float_round (of_int lo) \<le> float_round x"
    using assms(1) by (rule float_round_mono)
  then show "of_int lo \<le> float_round x"
    using assms(3) by (simp add: float_round_of_int)
  have "float_round x \<le> float_round (of_int hi)"
    using assms(2) by (rule float_round_mono)
  then show "float_round x \<le> of_int hi"
    using assms(4) by (simp add: float_round_of_int)
qed

lemma float_round_between_quarters:
  assumes "of_int lo / 4 \<le> x" and "x \<le> of_int hi / 4" and "\<bar>lo\<bar> < 2 ^ 53" and "\<bar>hi\<bar> < 2 ^ 53"
  shows "of_int lo / 4 \<le> float_round x" and "float_round x \<le> of_int hi / 4"
proof -
  have "float_round (of_int lo / 4) \<le> float_round x"
    using assms(1) by (rule float_round_mono)
  then show "of_int lo / 4 \<le> float_round x"
    using assms(3) by (simp add: float_round_quarter)
  have "float_round x \<le> float_round (of_int hi / 4)"
    using assms(2) by (rule float_round_mono)
  then show "float_round x \<le> of_int hi / 4"
    using assms(4) by (simp add: float_round_quarter)
qed

section \<open>The ranges of the score components\<close>

lemma py_int_nonneg: "0 \<le> x \<Longrightarrow> py_int x = \<lfloor>x\<rfloor>"
  by (simp add: py_int_def)

lemma py_int_of_int: "py_int (of_int n) = n"
  by (simp add: py_int_def)

lemma token_set_finite: "token_set nlp text = Inr T \<Longrightarrow> finite T"
  by (auto simp add: token_set_def split: sum.splits)

lemma keyword_match_value:
  assumes "finite jd_tokens"
  shows "keyword_match resume_tokens jd_tokens =
    Inr (if jd_tokens = {} then 0
         else float_mul (float_round (of_nat (card (resume_tokens \<inter> jd_tokens)) / of_nat (card jd_tokens))) 100)"
proof (cases "jd_tokens = {}")
  case True
  then show ?thesis
    by (simp add: keyword_match_def)
next
  case False
  with assms have "card jd_tokens \<noteq> 0"
    by simp
  with False show ?thesis
    by (simp add: keyword_match_def py_truediv_def)
qed

lemma keyword_match_range:
  assumes "finite jd_tokens" and "keyword_match resume_tokens jd_tokens = Inr km"
  shows "0 \<le> km" and "km \<le> 100"
proof -
  define q :: rat where "q = of_nat (card (resume_tokens \<inter> jd_tokens)) / of_nat (card jd_tokens)"
  have "card (resume_tokens \<inter> jd_tokens) \<le> card jd_tokens"
    using assms(1) by (intro card_mono) simp_all
  then have q: "0 \<le> q" "q \<le> 1"
    by (auto simp add: q_def divide_le_eq_1)
  have r: "of_int 0 \<le> float_round q" "float_round q \<le> of_int 1"
    using q by (intro float_round_between [of 0 q 1]; simp)+
  have "of_int 0 \<le> float_round q * 100" "float_round q * 100 \<le> of_int 100"
    using r by simp_all
  then have m: "of_int 0 \<le> float_mul (float_round q) 100" "float_mul (float_round q) 100 \<le> of_int 100"
    unfolding float_mul_def by (intro float_round_between [of 0 _ 100]; simp)+
  have "km = (if jd_tokens = {} then 0 else float_mul (float_round q) 100)"
    using assms(2) keyword_match_value [OF assms(1), of resume_tokens]
    by (auto simp add: q_def split: if_splits)
  with m show "0 \<le> km" and "km \<le> 100"
    by (simp_all split: if_splits)
qed

lemma skill_match_range:
  assumes "0 \<le> km" and "km \<le> 100"
  shows "10 \<le> skill_match km" and "skill_match km \<le> 100"
proof -
  have "of_int 10 \<le> float_round (km + 10)"
    using assms by (intro float_round_between(1) [of 10 _ 110]) simp_all
  then show "10 \<le> skill_match km"
    by (simp add: skill_match_def float_add_def)
  show "skill_match km \<le> 100"
    by (simp add: skill_match_def)
qed

lemma readability_score_range: "30 \<le> readability_score text" "readability_score text \<le> 100"
proof -
  define x :: rat where "x = float_div (of_nat (length (or_empty text))) 1500"
  have "float_round 0 \<le> x"
    unfolding x_def float_div_def by (intro float_round_mono) simp
  then have "100 - x \<le> of_int 100"
    by (simp add: float_round_zero)
  then have "float_round (100 - x) \<le> float_round (of_int 100)"
    by (rule float_round_mono)
  also have "float_round (of_int 100) = of_int 100"
    by (rule float_round_of_int) simp
  finally have "float_sub 100 x \<le> 100"
    by (simp add: float_sub_def)
  then show "readability_score text \<le> 100"
    by (simp add: readability_score_def x_def)
  show "30 \<le> readability_score text"
    by (simp add: readability_score_def)
qed

lemma format_score_cases: "format_score text = 70 \<or> format_score text = 90"
  by (simp add: format_score_def)

lemma analyze_resume_result:
  assumes "token_set nlp resume_text = Inr resume_tokens"
    and "token_set nlp jd_text = Inr jd_tokens"
  obtains km where "keyword_match resume_tokens jd_tokens = Inr km"
    and "0 \<le> km" and "km \<le> 100"
    and "analyze_resume nlp resume_text jd_text =
      Inr \<lparr>overall = overall_score km (skill_match km) (readability_score resume_text)
                        (format_score resume_text),
           keyword = py_int km,
           skill = py_int (skill_match km),
           readability = py_int (readability_score resume_text),
           format = py_int (format_score resume_text)\<rparr>"
proof -
  have fin: "finite jd_tokens"
    using assms(2) by (rule token_set_finite)
  obtain km where km: "keyword_match resume_tokens jd_tokens = Inr km"
    using keyword_match_value [OF fin, of resume_tokens] by blast
  have "0 \<le> km" and "km \<le> 100"
    using keyword_match_range [OF fin km] by simp_all
  moreover have "analyze_resume nlp resume_text jd_text =
      Inr \<lparr>overall = overall_score km (skill_match km) (readability_score resume_text)
                        (format_score resume_text),
           keyword = py_int km,
           skill = py_int (skill_match km),
           readability = py_int (readability_score resume_text),
           format = py_int (format_score resume_text)\<rparr>"
    by (simp add: analyze_resume_def assms km Let_def)
  ultimately show ?thesis
    using km that by blast
qed

lemma overall_score_between:
  assumes km: "0 \<le> km" "km \<le> 100"
    and sm: "0 \<le> sm" "sm \<le> 100"
    and rd: "0 \<le> rd" "rd \<le> 100"
    and fs: "fs = 70 \<or> fs = 90"
  shows "(py_int km + py_int sm + py_int rd + py_int fs) div 4 \<le> overall_score km sm rd fs"
    and "overall_score km sm rd fs \<le> (py_int km + py_int sm + py_int rd + py_int fs) div 4 + 1"
proof -
  define a where "a = \<lfloor>km\<rfloor>"
  define b where "b = \<lfloor>sm\<rfloor>"
  define c where "c = \<lfloor>rd\<rfloor>"
  define d where "d = \<lfloor>fs\<rfloor>"
  have pk: "py_int km = a" "py_int sm = b" "py_int rd = c" "py_int fs = d"
    using km sm rd fs by (auto simp add: py_int_def a_def b_def c_def d_def)
  have ra: "0 \<le> a" "a \<le> 100" "of_int a \<le> km" "km \<le> of_int (a + 1)"
    using km by (simp_all add: a_def le_floor_iff floor_le_iff) linarith
  have rb: "0 \<le> b" "b \<le> 100" "of_int b \<le> sm" "sm \<le> of_int (b + 1)"
    using sm by (simp_all add: b_def le_floor_iff floor_le_iff) linarith
  have rc: "0 \<le> c" "c \<le> 100" "of_int c \<le> rd" "rd \<le> of_int (c + 1)"
    using rd by (simp_all add: c_def le_floor_iff floor_le_iff) linarith
  have rdd: "d = 70 \<or> d = 90" "fs = of_int d"
    using fs by (auto simp add: d_def)
  define s1 where "s1 = float_add km sm"
  define s2 where "s2 = float_add s1 rd"
  define s3 where "s3 = float_add s2 fs"
  define m where "m = float_div s3 4"
  have s1: "of_int (a + b) \<le> s1" "s1 \<le> of_int (a + b + 2)"
    unfolding s1_def float_add_def
    using ra rb by (intro float_round_between [of "a + b" _ "a + b + 2"]; simp)+
  have s2: "of_int (a + b + c) \<le> s2" "s2 \<le> of_int (a + b + c + 3)"
    unfolding s2_def float_add_def
    using ra rb rc s1 by (intro float_round_between [of "a + b + c" _ "a + b + c + 3"]; simp)+
  have s3: "of_int (a + b + c + d) \<le> s3" "s3 \<le> of_int (a + b + c + d + 3)"
    unfolding s3_def float_add_def
    using ra rb rc rdd s2
    by (intro float_round_between [of "a + b + c + d" _ "a + b + c + d + 3"]; auto)+
  have m: "of_int (a + b + c + d) / 4 \<le> m" "m \<le> of_int (a + b + c + d + 3) / 4"
    unfolding m_def float_div_def
    using ra rb rc rdd s3
    by (intro float_round_between_quarters [of "a + b + c + d" _ "a + b + c + d + 3"]; auto)+
  have m0: "0 \<le> m"
    using m(1) ra rb rc rdd by auto
  have o: "overall_score km sm rd fs = \<lfloor>m\<rfloor>"
    using m0 by (simp add: overall_score_def py_int_def m_def s3_def s2_def s1_def)
  have "\<lfloor>(of_int (a + b + c + d) :: rat) / of_int 4\<rfloor> \<le> \<lfloor>m\<rfloor>"
    using m(1) by (intro floor_mono) simp
  then have lo: "(a + b + c + d) div 4 \<le> \<lfloor>m\<rfloor>"
    by (simp only: floor_divide_of_int_eq)
  have "\<lfloor>m\<rfloor> \<le> \<lfloor>(of_int (a + b + c + d + 3) :: rat) / of_int 4\<rfloor>"
    using m(2) by (intro floor_mono) simp
  then have hi: "\<lfloor>m\<rfloor> \<le> (a + b + c + d + 3) div 4"
    by (simp only: floor_divide_of_int_eq)
  show "(py_int km + py_int sm + py_int rd + py_int fs) div 4 \<le> overall_score km sm rd fs"
    using lo by (simp add: pk o)
  show "overall_score km sm rd fs \<le> (py_int km + py_int sm + py_int rd + py_int fs) div 4 + 1"
    using hi by (simp add: pk o)
qed

section \<open>Lower-casing and the token sets\<close>

lemma lower_char_idem: "lower_char (lower_char c) = lower_char c"
proof -
  define n where "n = (of_char c :: nat)"
  define up where "up k \<longleftrightarrow> (65 \<le> k \<and> k \<le> 90) \<or> (192 \<le> k \<and> k \<le> 222 \<and> k \<noteq> 215)" for k :: nat
  have lc: "lower_char d = (if up (of_char d) then char_of (of_char d + 32 :: nat) else d)" for d
    by (simp add: lower_char_def up_def Let_def)
  show ?thesis
  proof (cases "up n")
    case True
    then have l: "lower_char c = char_of (n + 32)"
      by (simp add: lc n_def)
    have "(of_char (char_of (n + 32) :: char) :: nat) = n + 32"
      using True by (auto simp add: of_char_of up_def)
    moreover have "\<not> up (n + 32)"
      using True by (auto simp add: up_def)
    ultimately show ?thesis
      unfolding l by (simp add: lc)
  next
    case False
    then have "lower_char c = c"
      by (simp add: lc n_def)
    then show ?thesis
      by simp
  qed
qed

lemma str_lower_idem: "str_lower (str_lower s) = str_lower s"
  by (simp add: str_lower_def lower_char_idem)

lemma str_lower_Experience: "str_lower ''Experience'' = ''experience''"
  by code_simp

text \<open>
  C8. The token set of a text is computed from its lower-cased form, so a text and its
  lower-cased form have the same token set (or fail with the same exception),
  whatever the tokenizer; \<open>Experience\<close> and \<open>experience\<close> are an instance.
\<close>

theorem normalize_case_insensitive:
  "token_set nlp (Some (str_lower text)) = token_set nlp (Some text)
   \<and> token_set nlp (Some ''Experience'') = token_set nlp (Some ''experience'')"
proof -
  have low: "token_set nlp (Some (str_lower t)) = token_set nlp (Some t)" for t
    by (simp add: token_set_def or_empty_def str_lower_idem)
  show ?thesis
    using low [of "''Experience''"] low [of "text"] by (simp only: str_lower_Experience)
qed

section \<open>Extraction\<close>

text \<open>
  C7. For a path that ends neither in \<open>.pdf\<close> nor in \<open>.docx\<close>, \<open>extract_text\<close> returns
  the empty string and does not raise, whatever the libraries and the stored files.
\<close>

theorem extract_text_unsupported:
  assumes "\<not> suffix ''.pdf'' file_path" and "\<not> suffix ''.docx'' file_path"
  shows "extract_text env fs file_path = Inr []"
  using assms by (simp add: extract_text_def)

theorem extract_text_unsupported_witness:
  "\<not> suffix ''.pdf'' ''cv.PDF'' \<and> \<not> suffix ''.docx'' ''cv.PDF''
   \<and> extract_text small_env Map.empty ''cv.PDF'' = Inr []"
proof -
  have a: "\<not> suffix ''.pdf'' ''cv.PDF''"
    by (simp add: suffix_to_prefix)
  have b: "\<not> suffix ''.docx'' ''cv.PDF''"
    by (simp add: suffix_to_prefix)
  show ?thesis
    using a b extract_text_unsupported [OF a b, of small_env Map.empty] by simp
qed

section \<open>The scores\<close>

subsection \<open>A run on two short texts\<close>

lemma token_set_resume: "token_set word_nlp (Some ''python sql'') = Inr {''python'', ''sql''}"
  by code_simp

lemma token_set_jd: "token_set word_nlp (Some ''python sql java'') = Inr {''python'', ''sql'', ''java''}"
  by code_simp

lemma token_set_empty: "token_set word_nlp (Some []) = Inr {}"
  by code_simp

lemma keyword_match_two_of_three:
  "keyword_match {''python'', ''sql''} {''python'', ''sql'', ''java''} =
     Inr (2345624805922133 / 35184372088832)"
  by code_simp

lemma skill_match_two_of_three:
  "skill_match (2345624805922133 / 35184372088832) = 2697468526810453 / 35184372088832"
  by code_simp

lemma readability_score_ten: "readability_score (Some ''python sql'') = 219887665400163 / 2199023255552"
  by code_simp

lemma format_score_plain: "format_score (Some ''python sql'') = 70"
  by code_simp

lemma overall_score_example:
  "overall_score (2345624805922133 / 35184372088832) (2697468526810453 / 35184372088832)
     (219887665400163 / 2199023255552) 70 = 78"
  by code_simp

lemma py_int_examples:
  "py_int (2345624805922133 / 35184372088832) = 66"
  "py_int (2697468526810453 / 35184372088832) = 76"
  "py_int (219887665400163 / 2199023255552) = 99"
  by code_simp+

subsection \<open>The overall score\<close>

lemma analyze_resume_two_of_three:
  "analyze_resume word_nlp (Some ''python sql'') (Some ''python sql java'') =
     Inr \<lparr>overall = 78, keyword = 66, skill = 76, readability = 99, format = 70\<rparr>"
  by (simp add: analyze_resume_def token_set_resume token_set_jd keyword_match_two_of_three
      skill_match_two_of_three readability_score_ten format_score_plain overall_score_example
      py_int_examples py_int_of_int [of 70, simplified])

text \<open>
  C1, as stated, fails. For the resume \<open>python sql\<close> and the job description
  \<open>python sql java\<close> the untruncated components are about 66.67, 76.67, 99.99 and 70;
  their mean truncates to 78, while the stored fields 66, 76, 99 and 70 have the mean
  77.75.
\<close>

theorem overall_not_mean_of_fields:
  "analyze_resume word_nlp (Some ''python sql'') (Some ''python sql java'') =
     Inr \<lparr>overall = 78, keyword = 66, skill = 76, readability = 99, format = 70\<rparr>
   \<and> (78::int) \<noteq> (66 + 76 + 99 + 70) div 4"
  by (simp add: analyze_resume_two_of_three)

text \<open>
  C1, amended. When both texts are tokenized, \<open>analyze_resume\<close> returns a result whose
  \<open>overall\<close> is the truncated mean of the four untruncated component values, added from
  left to right as floats; the four stored fields are truncated one by one. So
  \<open>overall\<close> is the floor of the mean of the stored fields, or that plus one.
\<close>

theorem overall_truncated_float_mean:
  assumes "token_set nlp resume_text = Inr resume_tokens"
    and "token_set nlp jd_text = Inr jd_tokens"
  shows "\<exists>km r. keyword_match resume_tokens jd_tokens = Inr km
           \<and> analyze_resume nlp resume_text jd_text = Inr r
           \<and> overall r = py_int (float_div (float_add (float_add (float_add km
                 (skill_match km)) (readability_score resume_text)) (format_score resume_text)) 4)
           \<and> keyword r = py_int km
           \<and> skill r = py_int (skill_match km)
           \<and> readability r = py_int (readability_score resume_text)
           \<and> format r = py_int (format_score resume_text)
           \<and> (keyword r + skill r + readability r + format r) div 4 \<le> overall r
           \<and> overall r \<le> (keyword r + skill r + readability r + format r) div 4 + 1"
proof -
  obtain km where km: "keyword_match resume_tokens jd_tokens = Inr km" "0 \<le> km" "km \<le> 100"
    and r: "analyze_resume nlp resume_text jd_text =
      Inr \<lparr>overall = overall_score km (skill_match km) (readability_score resume_text)
                        (format_score resume_text),
           keyword = py_int km,
           skill = py_int (skill_match km),
           readability = py_int (readability_score resume_text),
           format = py_int (format_score resume_text)\<rparr>"
    using assms by (rule analyze_resume_result)
  have sm: "0 \<le> skill_match km" "skill_match km \<le> 100"
    using skill_match_range [OF km(2,3)] by simp_all
  have rd: "0 \<le> readability_score resume_text" "readability_score resume_text \<le> 100"
    using readability_score_range [of resume_text] by simp_all
  note b = overall_score_between [OF km(2,3) sm rd format_score_cases [of resume_text]]
  show ?thesis
    using km(1) r b by (simp add: overall_score_def)
qed

theorem overall_truncated_float_mean_witness:
  "token_set word_nlp (Some ''python sql'') = Inr {''python'', ''sql''}
   \<and> token_set word_nlp (Some ''python sql java'') = Inr {''python'', ''sql'', ''java''}
   \<and> (\<exists>km r. keyword_match {''python'', ''sql''} {''python'', ''sql'', ''java''} = Inr km
           \<and> analyze_resume word_nlp (Some ''python sql'') (Some ''python sql java'') = Inr r
           \<and> overall r = py_int (float_div (float_add (float_add (float_add km
                 (skill_match km)) (readability_score (Some ''python sql'')))
                 (format_score (Some ''python sql''))) 4)
           \<and> keyword r = py_int km
           \<and> skill r = py_int (skill_match km)
           \<and> readability r = py_int (readability_score (Some ''python sql''))
           \<and> format r = py_int (format_score (Some ''python sql''))
           \<and> (keyword r + skill r + readability r + format r) div 4 \<le> overall r
           \<and> overall r \<le> (keyword r + skill r + readability r + format r) div 4 + 1)"
  by (rule conjI [OF token_set_resume conjI [OF token_set_jd
        overall_truncated_float_mean [OF token_set_resume token_set_jd]]])

subsection \<open>The ranges of the stored fields\<close>

text \<open>
  C10. When both texts are tokenized, \<open>analyze_resume\<close> returns a result with
  \<open>keyword\<close> in 0..100, \<open>skill\<close> in 10..100, \<open>readability\<close> in 30..100, \<open>format\<close>
  70 or 90, and \<open>overall\<close> at least 27, with no clamp other than the \<open>min\<close> and the
  \<open>max\<close> of the formulas.
\<close>

theorem score_components_in_range:
  assumes "token_set nlp resume_text = Inr resume_tokens"
    and "token_set nlp jd_text = Inr jd_tokens"
  shows "\<exists>r. analyze_resume nlp resume_text jd_text = Inr r
           \<and> 0 \<le> keyword r \<and> keyword r \<le> 100
           \<and> 10 \<le> skill r \<and> skill r \<le> 100
           \<and> 30 \<le> readability r \<and> readability r \<le> 100
           \<and> (format r = 70 \<or> format r = 90)
           \<and> 27 \<le> overall r"
proof -
  obtain km where km: "keyword_match resume_tokens jd_tokens = Inr km" "0 \<le> km" "km \<le> 100"
    and r: "analyze_resume nlp resume_text jd_text =
      Inr \<lparr>overall = overall_score km (skill_match km) (readability_score resume_text)
                        (format_score resume_text),
           keyword = py_int km,
           skill = py_int (skill_match km),
           readability = py_int (readability_score resume_text),
           format = py_int (format_score resume_text)\<rparr>"
    using assms by (rule analyze_resume_result)
  define sm where "sm = skill_match km"
  define rd where "rd = readability_score resume_text"
  define fs where "fs = format_score resume_text"
  have sm: "10 \<le> sm" "sm \<le> 100"
    using skill_match_range [OF km(2,3)] by (simp_all add: sm_def)
  have rd: "30 \<le> rd" "rd \<le> 100"
    using readability_score_range [of resume_text] by (simp_all add: rd_def)
  have fs: "fs = 70 \<or> fs = 90"
    unfolding fs_def by (rule format_score_cases)
  have k: "0 \<le> py_int km" "py_int km \<le> 100"
    using km(2,3) by (simp_all add: py_int_def le_floor_iff floor_le_iff)
  have s: "10 \<le> py_int sm" "py_int sm \<le> 100"
    using sm by (simp_all add: py_int_def le_floor_iff floor_le_iff)
  have d: "30 \<le> py_int rd" "py_int rd \<le> 100"
    using rd by (simp_all add: py_int_def le_floor_iff floor_le_iff)
  have f: "py_int fs = 70 \<or> py_int fs = 90"
    using fs by (auto simp add: py_int_def)
  have "(py_int km + py_int sm + py_int rd + py_int fs) div 4 \<le> overall_score km sm rd fs"
    using km(2,3) sm rd fs by (intro overall_score_between(1)) simp_all
  moreover have "110 \<le> py_int km + py_int sm + py_int rd + py_int fs"
    using k s d f by linarith
  ultimately have o: "27 \<le> overall_score km sm rd fs"
    by linarith
  show ?thesis
    using r k s d f o by (simp add: sm_def rd_def fs_def)
qed

theorem score_components_in_range_witness:
  "token_set word_nlp (Some ''python sql'') = Inr {''python'', ''sql''}
   \<and> token_set word_nlp (Some ''python sql java'') = Inr {''python'', ''sql'', ''java''}
   \<and> (\<exists>r. analyze_resume word_nlp (Some ''python sql'') (Some ''python sql java'') = Inr r
           \<and> 0 \<le> keyword r \<and> keyword r \<le> 100
           \<and> 10 \<le> skill r \<and> skill r \<le> 100
           \<and> 30 \<le> readability r \<and> readability r \<le> 100
           \<and> (format r = 70 \<or> format r = 90)
           \<and> 27 \<le> overall r)"
  by (rule conjI [OF token_set_resume conjI [OF token_set_jd
        score_components_in_range [OF token_set_resume token_set_jd]]])

subsection \<open>The overlap percentage\<close>

lemma keyword_match_no_resume_tokens:
  assumes "finite jd_tokens"
  shows "keyword_match {} jd_tokens = Inr 0"
  using keyword_match_value [OF assms, of "{}"]
  by (simp add: float_mul_def float_round_zero)

text \<open>
  C2. For token sets (finite ones, as every Python set is), the overlap percentage is
  \<open>len(resume_tokens & jd_tokens) / len(jd_tokens) * 100\<close>, evaluated in floats, when
  \<open>jd_tokens\<close> is not empty; the division does not raise. It is 0 when \<open>jd_tokens\<close> is
  empty, and 0 when \<open>resume_tokens\<close> is empty.
\<close>

theorem overlap_percent:
  assumes "finite jd_tokens"
  shows "keyword_match resume_tokens jd_tokens =
           Inr (if jd_tokens = {} then 0
                else float_mul (float_round (of_nat (card (resume_tokens \<inter> jd_tokens))
                                               / of_nat (card jd_tokens))) 100)
         \<and> keyword_match resume_tokens {} = Inr 0
         \<and> keyword_match {} jd_tokens = Inr 0"
  using keyword_match_value [OF assms, of resume_tokens] keyword_match_no_resume_tokens [OF assms]
  by (simp add: keyword_match_def)

lemma finite_jd_example: "finite {''python'', ''sql'', ''java''}"
  by simp

theorem overlap_percent_witness:
  "finite {''python'', ''sql'', ''java''}
   \<and> keyword_match {''python'', ''sql''} {''python'', ''sql'', ''java''} =
           Inr (if {''python'', ''sql'', ''java''} = {} then 0
                else float_mul (float_round (of_nat (card ({''python'', ''sql''} \<inter> {''python'', ''sql'', ''java''}))
                                               / of_nat (card {''python'', ''sql'', ''java''}))) 100)
   \<and> keyword_match {''python'', ''sql''} {} = Inr 0
   \<and> keyword_match {} {''python'', ''sql'', ''java''} = Inr 0"
  by (rule conjI [OF finite_jd_example overlap_percent [OF finite_jd_example]])

text \<open>
  The percentage is a float: with 57 of 100 tokens of the job description in the
  resume it is just below 57, and the \<open>keyword\<close> field is 56.
\<close>

lemma keyword_match_57_of_100:
  "float_mul (float_round (57 / 100)) 100 < 57
   \<and> py_int (float_mul (float_round (57 / 100)) 100) = 56"
  by code_simp

subsection \<open>The format score\<close>

lemma format_score_experienced:
  "format_score (Some ''experienced python developer skilled in sql and linux'') = 90"
  by code_simp

text \<open>
  C4. When both texts are tokenized, the \<open>format\<close> field is 90 if the lower-cased resume
  text contains \<open>experience\<close> as a substring and 70 otherwise. The test is on the text,
  not on the tokens: a resume with the word \<open>experienced\<close> scores 90.
\<close>

theorem format_is_substring_test:
  assumes "token_set nlp resume_text = Inr resume_tokens"
    and "token_set nlp jd_text = Inr jd_tokens"
  shows "(\<exists>r. analyze_resume nlp resume_text jd_text = Inr r
            \<and> format r = (if \<exists>before after. str_lower (or_empty resume_text)
                                  = before @ ''experience'' @ after then 90 else 70))
         \<and> format_score (Some ''experienced python developer skilled in sql and linux'') = 90"
proof -
  obtain km where r: "analyze_resume nlp resume_text jd_text =
      Inr \<lparr>overall = overall_score km (skill_match km) (readability_score resume_text)
                        (format_score resume_text),
           keyword = py_int km,
           skill = py_int (skill_match km),
           readability = py_int (readability_score resume_text),
           format = py_int (format_score resume_text)\<rparr>"
    using assms by (rule analyze_resume_result)
  have "py_int (format_score resume_text) =
      (if \<exists>before after. str_lower (or_empty resume_text) = before @ ''experience'' @ after
       then 90 else 70)"
    by (simp add: format_score_def sublist_def py_int_def)
  with r show ?thesis
    by (simp add: format_score_experienced)
qed

theorem format_is_substring_test_witness:
  "token_set word_nlp (Some ''python sql'') = Inr {''python'', ''sql''}
   \<and> token_set word_nlp (Some ''python sql java'') = Inr {''python'', ''sql'', ''java''}
   \<and> (\<exists>r. analyze_resume word_nlp (Some ''python sql'') (Some ''python sql java'') = Inr r
            \<and> format r = (if \<exists>before after. str_lower (or_empty (Some ''python sql''))
                                  = before @ ''experience'' @ after then 90 else 70))
   \<and> format_score (Some ''experienced python developer skilled in sql and linux'') = 90"
  by (rule conjI [OF token_set_resume conjI [OF token_set_jd
        format_is_substring_test [OF token_set_resume token_set_jd]]])

subsection \<open>The skill score\<close>

lemma skill_match_zero: "skill_match 0 = 10"
proof -
  have "float_round (of_int 10) = of_int 10"
    by (rule float_round_of_int) simp
  then show ?thesis
    by (simp add: skill_match_def float_add_def)
qed

text \<open>
  C5. When both texts are tokenized, the \<open>skill\<close> field is
  \<open>min(100, keyword_match + 10)\<close> truncated, where \<open>keyword_match\<close> is the overlap
  percentage and \<open>keyword\<close> is its truncation. When the job description has no
  alphabetic token, as an empty one has, \<open>keyword\<close> is 0 and \<open>skill\<close> is 10.
\<close>

theorem skill_is_capped_bonus:
  assumes "token_set nlp resume_text = Inr resume_tokens"
    and "token_set nlp jd_text = Inr jd_tokens"
  shows "\<exists>km r. keyword_match resume_tokens jd_tokens = Inr km
           \<and> analyze_resume nlp resume_text jd_text = Inr r
           \<and> keyword r = py_int km
           \<and> skill r = py_int (min 100 (float_add km 10))
           \<and> (jd_tokens = {} \<longrightarrow> keyword r = 0 \<and> skill r = 10)"
proof -
  obtain km where km: "keyword_match resume_tokens jd_tokens = Inr km"
    and r: "analyze_resume nlp resume_text jd_text =
      Inr \<lparr>overall = overall_score km (skill_match km) (readability_score resume_text)
                        (format_score resume_text),
           keyword = py_int km,
           skill = py_int (skill_match km),
           readability = py_int (readability_score resume_text),
           format = py_int (format_score resume_text)\<rparr>"
    using assms by (rule analyze_resume_result)
  have "km = 0" if "jd_tokens = {}"
    using km that by (simp add: keyword_match_def)
  then have "jd_tokens = {} \<longrightarrow> py_int km = 0 \<and> py_int (skill_match km) = 10"
    using skill_match_zero py_int_of_int [of 10] py_int_of_int [of 0] by auto
  with km r show ?thesis
    by (simp add: skill_match_def)
qed

theorem skill_is_capped_bonus_witness:
  "token_set word_nlp (Some ''python sql'') = Inr {''python'', ''sql''}
   \<and> token_set word_nlp (Some []) = Inr {}
   \<and> (\<exists>r. analyze_resume word_nlp (Some ''python sql'') (Some []) = Inr r
           \<and> keyword r = 0 \<and> skill r = 10)"
  using token_set_resume token_set_empty skill_is_capped_bonus [OF token_set_resume token_set_empty]
  by blast

subsection \<open>The readability score\<close>

lemma readability_score_floor:
  "py_int (readability_score resume_text) = 30 \<longleftrightarrow> 103500 < length (or_empty resume_text)"
proof -
  define n where "n = length (or_empty resume_text)"
  define x where "x = float_div (of_nat n) 1500"
  define y where "y = float_sub 100 x"
  have rs: "readability_score resume_text = max 30 y"
    by (simp add: readability_score_def y_def x_def n_def)
  have p: "py_int (max 30 y) = \<lfloor>max 30 y\<rfloor>"
    by (simp add: py_int_def)
  show ?thesis
  proof (cases "103500 < n")
    case True
    then have "103501 \<le> n"
      by simp
    then have "(of_nat 103501 :: rat) \<le> of_nat n"
      by (simp only: of_nat_le_iff)
    then have "(103501::rat) \<le> of_nat n"
      by simp
    then have "(of_int 141313 * 2 powi (- 11) :: rat) \<le> of_nat n / 1500"
      by (simp add: power_int_minus_divide)
    then have "float_round (of_int 141313 * 2 powi (- 11)) \<le> float_round (of_nat n / 1500)"
      by (rule float_round_mono)
    moreover have "float_round (of_int 141313 * 2 powi (- 11)) = of_int 141313 * 2 powi (- 11)"
      by (rule float_round_dyadic) simp
    ultimately have "141313 / 2048 \<le> x"
      by (simp add: x_def float_div_def power_int_minus_divide)
    then have "100 - x \<le> of_int 63487 * 2 powi (- 11)"
      by (simp add: power_int_minus_divide)
    then have "float_round (100 - x) \<le> float_round (of_int 63487 * 2 powi (- 11))"
      by (rule float_round_mono)
    moreover have "float_round (of_int 63487 * 2 powi (- 11)) = of_int 63487 * 2 powi (- 11)"
      by (rule float_round_dyadic) simp
    ultimately have "y \<le> 63487 / 2048"
      by (simp add: y_def float_sub_def power_int_minus_divide)
    then have "30 \<le> max 30 y" and "max 30 y < 31"
      by simp_all
    then have "\<lfloor>max 30 y\<rfloor> = 30"
      by (simp add: floor_eq_iff)
    with True show ?thesis
      unfolding rs p n_def by blast
  next
    case False
    then have "n \<le> 103500"
      by simp
    then have "(of_nat n :: rat) \<le> of_nat 103500"
      by (simp only: of_nat_le_iff)
    then have "of_nat n \<le> (103500::rat)"
      by simp
    then have "of_nat n / 1500 \<le> (of_int 69 :: rat)"
      by simp
    then have "x \<le> of_int 69"
      unfolding x_def float_div_def
      by (intro float_round_between(2) [of 0 _ 69]) simp_all
    then have "of_int 31 \<le> 100 - x"
      by simp
    then have "float_round (of_int 31) \<le> float_round (100 - x)"
      by (rule float_round_mono)
    moreover have "float_round (of_int 31) = of_int 31"
      by (rule float_round_of_int) simp
    ultimately have "31 \<le> y"
      by (simp add: y_def float_sub_def)
    then have "31 \<le> \<lfloor>max 30 y\<rfloor>"
      by (simp add: le_floor_iff)
    then have "\<lfloor>max 30 y\<rfloor> \<noteq> 30"
      by linarith
    with False show ?thesis
      unfolding rs p n_def by blast
  qed
qed

lemma split_words_replicate:
  assumes "c \<noteq> CHR '' ''"
  shows "split_words w (replicate n c) = (if w = [] \<and> n = 0 then [] else [w @ replicate n c])"
proof (induction n arbitrary: w)
  case 0
  show ?case by simp
next
  case (Suc n)
  show ?case
    using assms by (simp add: Suc.IH replicate_app_Cons_same)
qed

lemma lower_char_x: "lower_char CHR ''x'' = CHR ''x''"
  by code_simp

lemma is_letter_x: "is_letter CHR ''x''"
  by code_simp

lemma token_set_xs:
  assumes "0 < n"
  shows "token_set word_nlp (Some (replicate n CHR ''x'')) = Inr {replicate n CHR ''x''}"
proof -
  have "str_lower (replicate n CHR ''x'') = replicate n CHR ''x''"
    by (simp add: str_lower_def lower_char_x)
  moreover have "split_words [] (replicate n CHR ''x'') = [replicate n CHR ''x'']"
    using assms by (simp add: split_words_replicate)
  moreover have "list_all is_letter (replicate n CHR ''x'')"
    by (simp add: list_all_iff is_letter_x)
  ultimately show ?thesis
    by (simp add: token_set_def word_nlp_def or_empty_def)
qed

lemma token_set_python: "token_set word_nlp (Some ''python'') = Inr {''python''}"
  by code_simp

lemma xs_not_python: "{replicate 7001 CHR ''x''} \<inter> {''python''} = {}"
proof -
  have "length (replicate 7001 CHR ''x'') \<noteq> length ''python''"
    by simp
  then have "replicate 7001 CHR ''x'' \<noteq> ''python''"
    by (rule contrapos_nn) (simp only:)
  then show ?thesis
    by simp
qed

lemma keyword_match_disjoint:
  assumes "finite jd_tokens" and "resume_tokens \<inter> jd_tokens = {}"
  shows "keyword_match resume_tokens jd_tokens = Inr 0"
  using keyword_match_value [OF assms(1), of resume_tokens] assms(2)
  by (simp add: float_mul_def float_round_zero)

lemma format_score_xs: "format_score (Some (replicate n CHR ''x'')) = 70"
proof -
  have "\<not> sublist ''experience'' (replicate n CHR ''x'')"
  proof
    assume "sublist ''experience'' (replicate n CHR ''x'')"
    then have "set ''experience'' \<subseteq> set (replicate n CHR ''x'')"
      by (rule set_mono_sublist)
    then have "CHR ''e'' \<in> set (replicate n CHR ''x'')"
      by simp
    then show False
      by simp
  qed
  then show ?thesis
    by (simp add: format_score_def or_empty_def str_lower_def lower_char_x)
qed

lemma readability_value_7001: "max 30 (float_sub 100 (float_div 7001 1500)) = 6708440032441183 / 70368744177664"
  by code_simp

lemma readability_score_7001:
  "readability_score (Some (replicate 7001 CHR ''x'')) = 6708440032441183 / 70368744177664"
  by (simp add: readability_score_def or_empty_def readability_value_7001)

lemma py_int_7001: "py_int (6708440032441183 / 70368744177664) = 95"
  by code_simp

lemma overall_score_7001: "overall_score 0 10 (6708440032441183 / 70368744177664) 70 = 43"
  by code_simp

text \<open>
  C3, as stated, fails. A resume of 7001 characters whose only token does not occur
  in the job description has \<open>readability\<close> 95: \<open>100 - 7001 / 1500\<close> is about 95.33.
\<close>

theorem readability_above_floor_at_7001:
  "7000 < length (replicate 7001 CHR ''x'')
   \<and> token_set word_nlp (Some (replicate 7001 CHR ''x'')) = Inr {replicate 7001 CHR ''x''}
   \<and> token_set word_nlp (Some ''python'') = Inr {''python''}
   \<and> {replicate 7001 CHR ''x''} \<inter> {''python''} = {}
   \<and> analyze_resume word_nlp (Some (replicate 7001 CHR ''x'')) (Some ''python'') =
        Inr \<lparr>overall = 43, keyword = 0, skill = 10, readability = 95, format = 70\<rparr>"
proof -
  have t: "token_set word_nlp (Some (replicate 7001 CHR ''x'')) = Inr {replicate 7001 CHR ''x''}"
    by (rule token_set_xs) simp
  have k: "keyword_match {replicate 7001 CHR ''x''} {''python''} = Inr 0"
    using xs_not_python by (intro keyword_match_disjoint) simp_all
  have "analyze_resume word_nlp (Some (replicate 7001 CHR ''x'')) (Some ''python'') =
        Inr \<lparr>overall = 43, keyword = 0, skill = 10, readability = 95, format = 70\<rparr>"
    by (simp add: analyze_resume_def t token_set_python k skill_match_zero readability_score_7001
        format_score_xs overall_score_7001 py_int_7001 py_int_of_int [of 0, simplified]
        py_int_of_int [of 10, simplified] py_int_of_int [of 70, simplified])
  then show ?thesis
    using t token_set_python xs_not_python by simp
qed

text \<open>
  C3, amended. When both texts are tokenized, \<open>readability\<close> is at least 30, and it is
  30 exactly when the resume text is longer than 103500 characters, whatever the
  overlap with the job description.
\<close>

theorem readability_floor_from_103501:
  assumes "token_set nlp resume_text = Inr resume_tokens"
    and "token_set nlp jd_text = Inr jd_tokens"
  shows "\<exists>r. analyze_resume nlp resume_text jd_text = Inr r
           \<and> 30 \<le> readability r
           \<and> (readability r = 30) = (103500 < length (or_empty resume_text))"
proof -
  obtain km where r: "analyze_resume nlp resume_text jd_text =
      Inr \<lparr>overall = overall_score km (skill_match km) (readability_score resume_text)
                        (format_score resume_text),
           keyword = py_int km,
           skill = py_int (skill_match km),
           readability = py_int (readability_score resume_text),
           format = py_int (format_score resume_text)\<rparr>"
    using assms by (rule analyze_resume_result)
  have "30 \<le> py_int (readability_score resume_text)"
    using readability_score_range(1) [of resume_text] by (simp add: py_int_def le_floor_iff)
  with r show ?thesis
    by (simp add: readability_score_floor)
qed

theorem readability_floor_from_103501_witness:
  "token_set word_nlp (Some (replicate 103501 CHR ''x'')) = Inr {replicate 103501 CHR ''x''}
   \<and> token_set word_nlp (Some ''python'') = Inr {''python''}
   \<and> (\<exists>r. analyze_resume word_nlp (Some (replicate 103501 CHR ''x'')) (Some ''python'') = Inr r
           \<and> readability r = 30)"
proof -
  have t: "token_set word_nlp (Some (replicate 103501 CHR ''x'')) = Inr {replicate 103501 CHR ''x''}"
    by (rule token_set_xs) simp
  have "103500 < length (or_empty (Some (replicate 103501 CHR ''x'')))"
    by (simp add: or_empty_def)
  then show ?thesis
    using t token_set_python readability_floor_from_103501 [OF t token_set_python] by blast
qed

section \<open>The \<open>/analyze\<close> route\<close>

lemma extract_and_analyze_Inl:
  assumes "extract_text env fs jd_path = Inl e1
      \<or> extract_text env fs resume_path = Inl e2
      \<or> (\<exists>jd_text resume_text. extract_text env fs jd_path = Inr jd_text
            \<and> extract_text env fs resume_path = Inr resume_text
            \<and> analyze_resume (spacy_nlp env) (Some resume_text) (Some jd_text) = Inl e3)"
  shows "\<exists>e. extract_and_analyze env fs jd_path resume_path = Inl e"
  using assms by (auto simp add: extract_and_analyze_def split: sum.splits)

lemma analyze_reaches_try:
  assumes "files_jobFile req = Some jd_file" and "files_resumeFile req = Some resume_file"
    and "filename jd_file \<noteq> []" and "filename resume_file \<noteq> []"
    and "allowed_file env (filename jd_file)" and "allowed_file env (filename resume_file)"
    and "jd_path = path_join env (JD_FOLDER env) (secure_filename env (filename jd_file))"
    and "resume_path = path_join env (RESUME_FOLDER env) (secure_filename env (filename resume_file))"
    and "fs = (files s)(jd_path \<mapsto> content jd_file, resume_path \<mapsto> content resume_file)"
  shows "analyze env s req =
    (case extract_and_analyze env fs jd_path resume_path of
       Inl e \<Rightarrow> (Json_error ''Processing failed'' 500, s\<lparr>files := fs\<rparr>)
     | Inr result \<Rightarrow>
         (case db_insert env (analyses s)
                 (form_userId req, jd_path, resume_path, overall result,
                  keyword result, skill result, readability result, format result) of
            Inl e \<Rightarrow> (Json_error ''DB error'' 500, s\<lparr>files := fs\<rparr>)
          | Inr rows \<Rightarrow> (Json_result result, s\<lparr>files := fs, analyses := rows\<rparr>)))"
  using assms by (simp add: analyze_def Let_def split: sum.splits)

subsection \<open>Runs in the small environment\<close>

lemma allowed_file_examples:
  "allowed_file small_env ''jd.pdf''" "allowed_file small_env ''cv.docx''"
  by code_simp+

lemma small_env_paths:
  "path_join small_env (JD_FOLDER small_env) (secure_filename small_env ''jd.pdf'') = ''uploads/jd/jd.pdf''"
  "path_join small_env (RESUME_FOLDER small_env) (secure_filename small_env ''cv.docx'') = ''uploads/resume/cv.docx''"
  by (simp_all add: small_env_def JD_FOLDER_def RESUME_FOLDER_def)

lemma suffix_examples:
  "suffix ''.pdf'' ''uploads/jd/jd.pdf''"
  "\<not> suffix ''.pdf'' ''uploads/resume/cv.docx''"
  "suffix ''.docx'' ''uploads/resume/cv.docx''"
  by code_simp+

lemma extract_text_corrupt_pdf:
  assumes "fs ''uploads/jd/jd.pdf'' = Some ''not a pdf''"
  shows "extract_text small_env fs ''uploads/jd/jd.pdf'' =
           Inl (LibraryError ''No /Root object! - Is this really a PDF?'')"
  using assms
  by (simp add: extract_text_def read_file_def suffix_examples small_env_def header_pdf_pages_def)

subsection \<open>Failure of the extraction or of the analysis\<close>

text \<open>
  C6. For a request with both uploads, of allowed types: when the extraction of the
  job description, the extraction of the resume, or the analysis of the two extracted
  texts raises, the handler answers with the one error \<open>Processing failed\<close> (status
  500) and no score, and the only change to the server is the two saved uploads: no
  row is added to \<open>analyses\<close>.
\<close>

theorem analyze_processing_failure:
  assumes "files_jobFile req = Some jd_file" and "files_resumeFile req = Some resume_file"
    and "filename jd_file \<noteq> []" and "filename resume_file \<noteq> []"
    and "allowed_file env (filename jd_file)" and "allowed_file env (filename resume_file)"
    and "jd_path = path_join env (JD_FOLDER env) (secure_filename env (filename jd_file))"
    and "resume_path = path_join env (RESUME_FOLDER env) (secure_filename env (filename resume_file))"
    and "fs = (files s)(jd_path \<mapsto> content jd_file, resume_path \<mapsto> content resume_file)"
    and "extract_text env fs jd_path = Inl e1
      \<or> extract_text env fs resume_path = Inl e2
      \<or> (\<exists>jd_text resume_text. extract_text env fs jd_path = Inr jd_text
            \<and> extract_text env fs resume_path = Inr resume_text
            \<and> analyze_resume (spacy_nlp env) (Some resume_text) (Some jd_text) = Inl e3)"
  shows "analyze env s req = (Json_error ''Processing failed'' 500, s\<lparr>files := fs\<rparr>)
         \<and> analyses (snd (analyze env s req)) = analyses s"
proof -
  obtain e where "extract_and_analyze env fs jd_path resume_path = Inl e"
    using extract_and_analyze_Inl [OF assms(10)] by blast
  then have "analyze env s req = (Json_error ''Processing failed'' 500, s\<lparr>files := fs\<rparr>)"
    using analyze_reaches_try [OF assms(1-9)] by simp
  then show ?thesis
    by simp
qed


theorem analyze_processing_failure_witness:
  "extract_text small_env
     [''uploads/jd/jd.pdf'' \<mapsto> ''not a pdf'', ''uploads/resume/cv.docx'' \<mapsto> ''python sql'']
     ''uploads/jd/jd.pdf'' = Inl (LibraryError ''No /Root object! - Is this really a PDF?'')
   \<and> analyze small_env \<lparr>files = Map.empty, analyses = []\<rparr>
         \<lparr>form_userId = Some ''7'',
          files_jobFile = Some \<lparr>filename = ''jd.pdf'', content = ''not a pdf''\<rparr>,
          files_resumeFile = Some \<lparr>filename = ''cv.docx'', content = ''python sql''\<rparr>\<rparr> =
       (Json_error ''Processing failed'' 500,
        \<lparr>files = [''uploads/jd/jd.pdf'' \<mapsto> ''not a pdf'',
                  ''uploads/resume/cv.docx'' \<mapsto> ''python sql''],
         analyses = []\<rparr>)"
proof -
  define s :: server where "s = \<lparr>files = Map.empty, analyses = []\<rparr>"
  define jd_file where "jd_file = \<lparr>filename = ''jd.pdf'', content = ''not a pdf''\<rparr>"
  define resume_file where "resume_file = \<lparr>filename = ''cv.docx'', content = ''python sql''\<rparr>"
  define req where "req = \<lparr>form_userId = Some ''7'', files_jobFile = Some jd_file,
    files_resumeFile = Some resume_file\<rparr>"
  define fs :: files where "fs = [''uploads/jd/jd.pdf'' \<mapsto> ''not a pdf'',
    ''uploads/resume/cv.docx'' \<mapsto> ''python sql'']"
  have x: "extract_text small_env fs ''uploads/jd/jd.pdf'' =
      Inl (LibraryError ''No /Root object! - Is this really a PDF?'')"
    by (rule extract_text_corrupt_pdf) (simp add: fs_def)
  have "analyze small_env s req = (Json_error ''Processing failed'' 500, s\<lparr>files := fs\<rparr>)
        \<and> analyses (snd (analyze small_env s req)) = analyses s"
  proof (rule analyze_processing_failure [where ?e1.0 = "LibraryError ''No /Root object! - Is this really a PDF?''"])
    show "files_jobFile req = Some jd_file" and "files_resumeFile req = Some resume_file"
      by (simp_all add: req_def)
    show "filename jd_file \<noteq> []" and "filename resume_file \<noteq> []"
      by (simp_all add: jd_file_def resume_file_def)
    show "allowed_file small_env (filename jd_file)" and "allowed_file small_env (filename resume_file)"
      by (simp_all add: jd_file_def resume_file_def allowed_file_examples)
    show "''uploads/jd/jd.pdf'' =
        path_join small_env (JD_FOLDER small_env) (secure_filename small_env (filename jd_file))"
      by (simp add: jd_file_def small_env_paths)
    show "''uploads/resume/cv.docx'' =
        path_join small_env (RESUME_FOLDER small_env) (secure_filename small_env (filename resume_file))"
      by (simp add: resume_file_def small_env_paths)
    show "fs = (files s)(''uploads/jd/jd.pdf'' \<mapsto> content jd_file,
        ''uploads/resume/cv.docx'' \<mapsto> content resume_file)"
      by (simp add: fs_def s_def jd_file_def resume_file_def)
    show "extract_text small_env fs ''uploads/jd/jd.pdf'' =
          Inl (LibraryError ''No /Root object! - Is this really a PDF?'')
      \<or> extract_text small_env fs ''uploads/resume/cv.docx'' = Inl e2
      \<or> (\<exists>jd_text resume_text. extract_text small_env fs ''uploads/jd/jd.pdf'' = Inr jd_text
            \<and> extract_text small_env fs ''uploads/resume/cv.docx'' = Inr resume_text
            \<and> analyze_resume (spacy_nlp small_env) (Some resume_text) (Some jd_text) = Inl e3)"
      for e2 e3
      using x by simp
  qed
  then show ?thesis
    using x by (simp add: s_def req_def jd_file_def resume_file_def fs_def)
qed

subsection \<open>The same documents under two file names\<close>

lemma overall_score_empty_jd: "overall_score 0 10 (219887665400163 / 2199023255552) 70 = 44"
  by code_simp

lemma analyze_resume_full_jd:
  assumes "token_set nlp (Some ''python sql'') = Inr {''python'', ''sql''}"
    and "token_set nlp (Some ''python sql java'') = Inr {''python'', ''sql'', ''java''}"
  shows "analyze_resume nlp (Some ''python sql'') (Some ''python sql java'') =
     Inr \<lparr>overall = 78, keyword = 66, skill = 76, readability = 99, format = 70\<rparr>"
  by (simp add: analyze_resume_def assms keyword_match_two_of_three
      skill_match_two_of_three readability_score_ten format_score_plain overall_score_example
      py_int_examples py_int_of_int [of 70, simplified])

lemma analyze_resume_empty_jd:
  assumes "token_set nlp (Some ''python sql'') = Inr {''python'', ''sql''}"
    and "token_set nlp (Some []) = Inr {}"
  shows "analyze_resume nlp (Some ''python sql'') (Some []) =
     Inr \<lparr>overall = 44, keyword = 0, skill = 10, readability = 99, format = 70\<rparr>"
  by (simp add: analyze_resume_def assms keyword_match_def skill_match_zero
      readability_score_ten format_score_plain overall_score_empty_jd py_int_examples
      py_int_of_int [of 0, simplified] py_int_of_int [of 10, simplified]
      py_int_of_int [of 70, simplified])

lemma suffix_of_longer:
  assumes "suffix name file_path" and "length ext \<le> length name"
  shows "suffix ext file_path \<longleftrightarrow> suffix ext name"
proof
  assume "suffix ext name"
  then show "suffix ext file_path"
    using assms(1) by (rule suffix_order.trans)
next
  assume e: "suffix ext file_path"
  obtain before where p: "file_path = before @ name"
    using assms(1) by (auto simp add: suffix_def)
  obtain before' where q: "file_path = before' @ ext"
    using e by (auto simp add: suffix_def)
  have "ext = drop (length file_path - length ext) file_path"
    by (simp add: q)
  moreover have "name = drop (length file_path - length name) file_path"
    by (simp add: p)
  moreover have "length file_path - length name \<le> length file_path - length ext"
    using assms(2) by simp
  ultimately have "ext = drop ((length file_path - length ext) - (length file_path - length name)) name"
    by (metis drop_drop le_add_diff_inverse2)
  then show "suffix ext name"
    by (metis suffix_drop)
qed

lemma name_suffixes:
  "suffix ''.pdf'' ''jd.pdf''" "\<not> suffix ''.pdf'' ''jd.PDF''" "\<not> suffix ''.docx'' ''jd.PDF''"
  "\<not> suffix ''.pdf'' ''cv.docx''" "suffix ''.docx'' ''cv.docx''"
  by code_simp+

lemma lowered_extensions:
  "str_lower ''.pdf'' \<in> ALLOWED_EXT" "str_lower ''.PDF'' \<in> ALLOWED_EXT"
  "str_lower ''.docx'' \<in> ALLOWED_EXT"
  by code_simp+

lemma analyze_answers_score:
  assumes "files_jobFile req = Some jd_file" and "files_resumeFile req = Some resume_file"
    and "filename jd_file \<noteq> []" and "filename resume_file \<noteq> []"
    and "allowed_file env (filename jd_file)" and "allowed_file env (filename resume_file)"
    and "jd_path = path_join env (JD_FOLDER env) (secure_filename env (filename jd_file))"
    and "resume_path = path_join env (RESUME_FOLDER env) (secure_filename env (filename resume_file))"
    and "fs = (files s)(jd_path \<mapsto> content jd_file, resume_path \<mapsto> content resume_file)"
    and "extract_and_analyze env fs jd_path resume_path = Inr result"
    and "\<And>rows row. \<exists>rows'. db_insert env rows row = Inr rows'"
  shows "fst (analyze env s req) = Json_result result"
proof -
  obtain rows' where "db_insert env (analyses s)
      (form_userId req, jd_path, resume_path, overall result,
       keyword result, skill result, readability result, format result) = Inr rows'"
    using assms(11) by blast
  then show ?thesis
    using analyze_reaches_try [OF assms(1-9)] assms(10) by simp
qed

lemma pdf_then_docx:
  assumes "suffix ''jd.pdf'' jd_path" and "suffix ''cv.docx'' resume_path"
    and "pdf_pages env jd_bytes = Inr [Some ''python sql java'']"
    and "docx_paragraphs env resume_bytes = Inr [''python sql'']"
    and "fs = (files0)(jd_path \<mapsto> jd_bytes, resume_path \<mapsto> resume_bytes)"
  shows "extract_text env fs jd_path = Inr ''python sql java''"
    and "extract_text env fs resume_path = Inr ''python sql''"
proof -
  have j: "suffix ''.pdf'' jd_path"
    using suffix_of_longer [OF assms(1), of "''.pdf''"] by (simp add: name_suffixes)
  have r: "\<not> suffix ''.pdf'' resume_path" "suffix ''.docx'' resume_path"
    using suffix_of_longer [OF assms(2), of "''.pdf''"] suffix_of_longer [OF assms(2), of "''.docx''"]
    by (simp_all add: name_suffixes)
  have ne: "jd_path \<noteq> resume_path"
    using j r(1) by blast
  show "extract_text env fs jd_path = Inr ''python sql java''"
    using j ne by (simp add: extract_text_def read_file_def assms(3,5) or_empty_def)
  show "extract_text env fs resume_path = Inr ''python sql''"
    using r by (simp add: extract_text_def read_file_def assms(4,5))
qed

lemma upper_case_pdf_then_docx:
  assumes "suffix ''jd.PDF'' jd_path" and "suffix ''cv.docx'' resume_path"
    and "docx_paragraphs env resume_bytes = Inr [''python sql'']"
    and "fs = (files0)(jd_path \<mapsto> jd_bytes, resume_path \<mapsto> resume_bytes)"
  shows "extract_text env fs jd_path = Inr []"
    and "extract_text env fs resume_path = Inr ''python sql''"
proof -
  have j: "\<not> suffix ''.pdf'' jd_path" "\<not> suffix ''.docx'' jd_path"
    using suffix_of_longer [OF assms(1), of "''.pdf''"] suffix_of_longer [OF assms(1), of "''.docx''"]
    by (simp_all add: name_suffixes)
  have r: "\<not> suffix ''.pdf'' resume_path" "suffix ''.docx'' resume_path"
    using suffix_of_longer [OF assms(2), of "''.pdf''"] suffix_of_longer [OF assms(2), of "''.docx''"]
    by (simp_all add: name_suffixes)
  show "extract_text env fs jd_path = Inr []"
    using j by (simp add: extract_text_def)
  show "extract_text env fs resume_path = Inr ''python sql''"
    using r by (simp add: extract_text_def read_file_def assms(3,4))
qed

lemma small_env_splitext:
  "splitext small_env ''jd.pdf'' = (''jd'', ''.pdf'')"
  "splitext small_env ''jd.PDF'' = (''jd'', ''.PDF'')"
  "splitext small_env ''cv.docx'' = (''cv'', ''.docx'')"
  by code_simp+

lemma small_env_secure_filename: "secure_filename small_env name = name"
  by (simp add: small_env_def)

lemma small_env_path_join: "suffix name (path_join small_env folder name)"
  by (simp add: small_env_def suffix_def)

lemma small_env_pdf_pages:
  "pdf_pages small_env ''%PDFpython sql java'' = Inr [Some ''python sql java'']"
  by code_simp

lemma small_env_docx_paragraphs: "docx_paragraphs small_env ''python sql'' = Inr [''python sql'']"
  by (simp add: small_env_def)

lemma small_env_token_sets:
  "token_set (spacy_nlp small_env) (Some ''python sql'') = Inr {''python'', ''sql''}"
  "token_set (spacy_nlp small_env) (Some ''python sql java'') = Inr {''python'', ''sql'', ''java''}"
  "token_set (spacy_nlp small_env) (Some []) = Inr {}"
proof -
  have "spacy_nlp small_env = word_nlp"
    by (simp add: small_env_def)
  then show "token_set (spacy_nlp small_env) (Some ''python sql'') = Inr {''python'', ''sql''}"
    and "token_set (spacy_nlp small_env) (Some ''python sql java'') = Inr {''python'', ''sql'', ''java''}"
    and "token_set (spacy_nlp small_env) (Some []) = Inr {}"
    by (simp_all only: token_set_resume token_set_jd token_set_empty)
qed

lemma small_env_db_insert: "\<exists>rows'. db_insert small_env rows row = Inr rows'"
  by (simp add: small_env_def)

text \<open>
  C9 does not hold on the code. \<open>allowed_file\<close> lower-cases the extension before it
  looks it up, so the handler accepts \<open>jd.pdf\<close> and \<open>jd.PDF\<close> alike; \<open>extract_text\<close>
  tests \<open>endswith(".pdf")\<close> on the path as written, and returns the empty string for
  \<open>jd.PDF\<close> without opening the file. Take any server state, any PDF whose one page
  reads \<open>python sql java\<close> and any DOCX whose one paragraph reads \<open>python sql\<close>, with
  the libraries as they behave on these names and texts (the hypotheses). Two requests
  with these same two documents, the job description named \<open>jd.pdf\<close> in one and
  \<open>jd.PDF\<close> in the other, are both answered with a score, and the scores differ:
  overall 78 with keyword 66 and skill 76, against overall 44 with keyword 0 and
  skill 10.
\<close>

theorem same_bytes_other_extension_case:
  assumes "splitext env ''jd.pdf'' = (''jd'', ''.pdf'')"
    and "splitext env ''jd.PDF'' = (''jd'', ''.PDF'')"
    and "splitext env ''cv.docx'' = (''cv'', ''.docx'')"
    and "secure_filename env ''jd.pdf'' = ''jd.pdf''"
    and "secure_filename env ''jd.PDF'' = ''jd.PDF''"
    and "secure_filename env ''cv.docx'' = ''cv.docx''"
    and "\<And>folder name. suffix name (path_join env folder name)"
    and "pdf_pages env jd_bytes = Inr [Some ''python sql java'']"
    and "docx_paragraphs env resume_bytes = Inr [''python sql'']"
    and "token_set (spacy_nlp env) (Some ''python sql'') = Inr {''python'', ''sql''}"
    and "token_set (spacy_nlp env) (Some ''python sql java'') = Inr {''python'', ''sql'', ''java''}"
    and "token_set (spacy_nlp env) (Some []) = Inr {}"
    and "\<And>rows row. \<exists>rows'. db_insert env rows row = Inr rows'"
  shows "fst (analyze env s
            \<lparr>form_userId = user,
             files_jobFile = Some \<lparr>filename = ''jd.pdf'', content = jd_bytes\<rparr>,
             files_resumeFile = Some \<lparr>filename = ''cv.docx'', content = resume_bytes\<rparr>\<rparr>)
           = Json_result \<lparr>overall = 78, keyword = 66, skill = 76, readability = 99, format = 70\<rparr>
         \<and> fst (analyze env s
            \<lparr>form_userId = user,
             files_jobFile = Some \<lparr>filename = ''jd.PDF'', content = jd_bytes\<rparr>,
             files_resumeFile = Some \<lparr>filename = ''cv.docx'', content = resume_bytes\<rparr>\<rparr>)
           = Json_result \<lparr>overall = 44, keyword = 0, skill = 10, readability = 99, format = 70\<rparr>"
proof -
  define resume_file where "resume_file = \<lparr>filename = ''cv.docx'', content = resume_bytes\<rparr>"
  define resume_path where "resume_path = path_join env (RESUME_FOLDER env) ''cv.docx''"
  have ar: "allowed_file env ''cv.docx''"
    by (simp add: allowed_file_def assms(3) lowered_extensions)
  have sr: "suffix ''cv.docx'' resume_path"
    unfolding resume_path_def by (rule assms(7))
  have first: "fst (analyze env s
            \<lparr>form_userId = user,
             files_jobFile = Some \<lparr>filename = ''jd.pdf'', content = jd_bytes\<rparr>,
             files_resumeFile = Some resume_file\<rparr>)
           = Json_result \<lparr>overall = 78, keyword = 66, skill = 76, readability = 99, format = 70\<rparr>"
  proof -
    define jd_file where "jd_file = \<lparr>filename = ''jd.pdf'', content = jd_bytes\<rparr>"
    define jd_path where "jd_path = path_join env (JD_FOLDER env) ''jd.pdf''"
    define fs where "fs = (files s)(jd_path \<mapsto> jd_bytes, resume_path \<mapsto> resume_bytes)"
    have sj: "suffix ''jd.pdf'' jd_path"
      unfolding jd_path_def by (rule assms(7))
    note x = pdf_then_docx [OF sj sr assms(8,9) fs_def]
    have "extract_and_analyze env fs jd_path resume_path =
        Inr \<lparr>overall = 78, keyword = 66, skill = 76, readability = 99, format = 70\<rparr>"
      by (simp add: extract_and_analyze_def x analyze_resume_full_jd [OF assms(10,11)])
    then have "fst (analyze env s
        \<lparr>form_userId = user, files_jobFile = Some jd_file, files_resumeFile = Some resume_file\<rparr>)
        = Json_result \<lparr>overall = 78, keyword = 66, skill = 76, readability = 99, format = 70\<rparr>"
      by (intro analyze_answers_score [where jd_file = jd_file and resume_file = resume_file
            and jd_path = jd_path and resume_path = resume_path and fs = fs] assms(13))
        (simp_all add: jd_file_def resume_file_def jd_path_def resume_path_def fs_def
          allowed_file_def assms(1,3,4,6) lowered_extensions)
    then show ?thesis
      by (simp add: jd_file_def)
  qed
  have second: "fst (analyze env s
            \<lparr>form_userId = user,
             files_jobFile = Some \<lparr>filename = ''jd.PDF'', content = jd_bytes\<rparr>,
             files_resumeFile = Some resume_file\<rparr>)
           = Json_result \<lparr>overall = 44, keyword = 0, skill = 10, readability = 99, format = 70\<rparr>"
  proof -
    define jd_file where "jd_file = \<lparr>filename = ''jd.PDF'', content = jd_bytes\<rparr>"
    define jd_path where "jd_path = path_join env (JD_FOLDER env) ''jd.PDF''"
    define fs where "fs = (files s)(jd_path \<mapsto> jd_bytes, resume_path \<mapsto> resume_bytes)"
    have sj: "suffix ''jd.PDF'' jd_path"
      unfolding jd_path_def by (rule assms(7))
    note x = upper_case_pdf_then_docx [OF sj sr assms(9) fs_def]
    have "extract_and_analyze env fs jd_path resume_path =
        Inr \<lparr>overall = 44, keyword = 0, skill = 10, readability = 99, format = 70\<rparr>"
      by (simp add: extract_and_analyze_def x analyze_resume_empty_jd [OF assms(10,12)])
    then have "fst (analyze env s
        \<lparr>form_userId = user, files_jobFile = Some jd_file, files_resumeFile = Some resume_file\<rparr>)
        = Json_result \<lparr>overall = 44, keyword = 0, skill = 10, readability = 99, format = 70\<rparr>"
      by (intro analyze_answers_score [where jd_file = jd_file and resume_file = resume_file
            and jd_path = jd_path and resume_path = resume_path and fs = fs] assms(13))
        (simp_all add: jd_file_def resume_file_def jd_path_def resume_path_def fs_def
          allowed_file_def assms(2,3,5,6) lowered_extensions)
    then show ?thesis
      by (simp add: jd_file_def)
  qed
  from first second show ?thesis
    by (simp add: resume_file_def)
qed

theorem same_bytes_other_extension_case_witness:
  "splitext small_env ''jd.PDF'' = (''jd'', ''.PDF'')
   \<and> pdf_pages small_env ''%PDFpython sql java'' = Inr [Some ''python sql java'']
   \<and> docx_paragraphs small_env ''python sql'' = Inr [''python sql'']
   \<and> fst (analyze small_env \<lparr>files = Map.empty, analyses = []\<rparr>
            \<lparr>form_userId = Some ''7'',
             files_jobFile = Some \<lparr>filename = ''jd.pdf'', content = ''%PDFpython sql java''\<rparr>,
             files_resumeFile = Some \<lparr>filename = ''cv.docx'', content = ''python sql''\<rparr>\<rparr>)
         = Json_result \<lparr>overall = 78, keyword = 66, skill = 76, readability = 99, format = 70\<rparr>
   \<and> fst (analyze small_env \<lparr>files = Map.empty, analyses = []\<rparr>
            \<lparr>form_userId = Some ''7'',
             files_jobFile = Some \<lparr>filename = ''jd.PDF'', content = ''%PDFpython sql java''\<rparr>,
             files_resumeFile = Some \<lparr>filename = ''cv.docx'', content = ''python sql''\<rparr>\<rparr>)
         = Json_result \<lparr>overall = 44, keyword = 0, skill = 10, readability = 99, format = 70\<rparr>"
  by (rule conjI [OF small_env_splitext(2) conjI [OF small_env_pdf_pages
        conjI [OF small_env_docx_paragraphs
          same_bytes_other_extension_case [OF small_env_splitext
            small_env_secure_filename small_env_secure_filename small_env_secure_filename
            small_env_path_join small_env_pdf_pages small_env_docx_paragraphs
            small_env_token_sets small_env_db_insert]]]])

end
